theory Spec2Isabelle
  imports Complex_Main "HOL-Library.AList" "HOL-Library.Log_Nat"
begin

section \<open>The page component of src/src/App.tsx\<close>

text \<open>
  The component \<open>App\<close> keeps three pieces of React state (\<open>inView\<close>,
  \<open>showBackToTop\<close>, \<open>isMobileMenuOpen\<close>) and runs three effects: the registration of
  an intersection observer, the set-up of a decorative Three.js scene and a scroll
  listener. Each handler is embedded as a function from the state before the call to the
  state after it; a DOM exception is a value of type \<open>dom_error\<close>.
\<close>

subsection \<open>Section visibility (lines 10-68)\<close>

text \<open>
  A JavaScript object literal with string keys is an association list in insertion order.
  \<open>Object.keys\<close> and \<open>Object.values\<close> read the two columns; the spread
  \<open>{...prev, [k]: v}\<close> replaces the value of an existing key in place and appends a new
  key, which is \<open>AList.update\<close>.
\<close>

type_synonym 'v js_object = "(string \<times> 'v) list"

definition object_keys :: "'v js_object \<Rightarrow> string list" where
  "object_keys obj = map fst obj"

definition object_values :: "'v js_object \<Rightarrow> 'v list" where
  "object_values obj = map snd obj"

definition section_ids :: "string list" where
  "section_ids =
     [''summary'', ''skills'', ''experience'', ''projects'', ''achievements'', ''education'']"

text \<open>An element of the page, as far as the component reads it: its \<open>id\<close> attribute.\<close>

datatype element = Element (element_id: string)

text \<open>An \<open>IntersectionObserverEntry\<close>: the fields \<open>target\<close> and \<open>isIntersecting\<close>.\<close>

record entry =
  target :: element
  isIntersecting :: bool

text \<open>The initial value of \<open>useState\<close> at lines 21-28.\<close>

definition initial_inView :: "bool js_object" where
  "initial_inView =
     [(''summary'', False), (''skills'', False), (''experience'', False),
      (''projects'', False), (''achievements'', False), (''education'', False)]"

text \<open>
  The body of the \<open>forEach\<close> at lines 32-41: \<open>inView\<close> is the value the callback
  closed over, \<open>prev\<close> the state the queued updater receives.
\<close>

definition process_entry :: "bool js_object \<Rightarrow> entry \<Rightarrow> bool js_object \<Rightarrow> bool js_object" where
  "process_entry inView e prev =
     (let sectionId = element_id (target e)
      in if sectionId \<in> set (object_keys inView)
         then AList.update sectionId (isIntersecting e) prev
         else prev)"

text \<open>React applies the queued updaters in the order of the entries.\<close>

definition observerCallback :: "bool js_object \<Rightarrow> entry list \<Rightarrow> bool js_object \<Rightarrow> bool js_object" where
  "observerCallback inView entries prev = fold (process_entry inView) entries prev"

subsection \<open>Registration of the observer (lines 44-57)\<close>

datatype dom_error = TypeError | NotFoundError

text \<open>
  The observation targets of an \<open>IntersectionObserver\<close>. \<open>observe\<close> throws a
  \<open>TypeError\<close> when its argument is \<open>null\<close>, and does nothing for a target it already
  observes.
\<close>

record observer =
  targets :: "element list"

definition new_observer :: observer where
  "new_observer = \<lparr>targets = []\<rparr>"

fun observe :: "element option \<Rightarrow> observer \<Rightarrow> dom_error + observer" where
  "observe None ob = Inl TypeError"
| "observe (Some el) ob =
     Inr (if el \<in> set (targets ob) then ob else ob\<lparr>targets := targets ob @ [el]\<rparr>)"

text \<open>
  The loop at lines 53-57 over the values of \<open>sectionRefs\<close>; \<open>ref.current\<close> is
  \<open>None\<close> for a region that is not attached. An exception ends the loop.
\<close>

fun observe_each :: "element option list \<Rightarrow> observer \<Rightarrow> dom_error + observer" where
  "observe_each [] ob = Inr ob"
| "observe_each (current # refs) ob =
     (if current \<noteq> None
      then (case observe current ob of
              Inl err \<Rightarrow> Inl err
            | Inr ob' \<Rightarrow> observe_each refs ob')
      else observe_each refs ob)"

definition register_sections :: "element option js_object \<Rightarrow> dom_error + observer" where
  "register_sections sectionRefs = observe_each (object_values sectionRefs) new_observer"

subsection \<open>The React state and its handlers\<close>

record app_state =
  inView :: "bool js_object"
  showBackToTop :: bool
  isMobileMenuOpen :: bool

definition initial_state :: app_state where
  "initial_state =
     \<lparr>inView = initial_inView, showBackToTop = False, isMobileMenuOpen = False\<rparr>"

text \<open>
  \<open>handleScroll\<close> (lines 162-168). \<open>window.scrollY\<close> is a finite number; the
  comparison with 300 is exact, so the position is taken as the rational it denotes.
\<close>

definition handleScroll :: "rat \<Rightarrow> app_state \<Rightarrow> app_state" where
  "handleScroll scrollY s =
     (if scrollY > 300 then s\<lparr>showBackToTop := True\<rparr> else s\<lparr>showBackToTop := False\<rparr>)"

text \<open>Line 562: the button is rendered when \<open>showBackToTop\<close> holds.\<close>

definition back_to_top_rendered :: "app_state \<Rightarrow> bool" where
  "back_to_top_rendered s = showBackToTop s"

text \<open>
  Line 223, the menu button: the handler sets the negation of the \<open>isMobileMenuOpen\<close>
  that the render which created it captured (it is not the updater form of line 36, which
  receives the state of the moment). Line 251, a link of the mobile menu.
\<close>

definition toggle_menu :: "bool \<Rightarrow> app_state \<Rightarrow> app_state" where
  "toggle_menu captured s = s\<lparr>isMobileMenuOpen := \<not> captured\<rparr>"

definition mobile_link_click :: "string \<Rightarrow> app_state \<Rightarrow> app_state" where
  "mobile_link_click item s = s\<lparr>isMobileMenuOpen := False\<rparr>"

text \<open>
  The events the component reacts to. In \<open>dispatch ev rendered s\<close> the handlers are the
  ones created at the render of the state \<open>rendered\<close>, and they run when the state is
  \<open>s\<close>: the observer callback closes over the \<open>inView\<close> of \<open>rendered\<close> and its updaters
  receive the \<open>inView\<close> of \<open>s\<close>; the menu button closes over the \<open>isMobileMenuOpen\<close> of
  \<open>rendered\<close>.
\<close>

datatype event =
  Intersection "entry list"
| Scroll rat
| MenuToggle
| MobileLink string

fun dispatch :: "event \<Rightarrow> app_state \<Rightarrow> app_state \<Rightarrow> app_state" where
  "dispatch (Intersection entries) rendered s =
     s\<lparr>inView := observerCallback (inView rendered) entries (inView s)\<rparr>"
| "dispatch (Scroll scrollY) rendered s = handleScroll scrollY s"
| "dispatch MenuToggle rendered s = toggle_menu (isMobileMenuOpen rendered) s"
| "dispatch (MobileLink item) rendered s = mobile_link_click item s"

text \<open>
  An event that finds the page rendered from the state it arrives in, as is the case
  when React has rendered again since the last change of state.
\<close>

definition handle :: "event \<Rightarrow> app_state \<Rightarrow> app_state" where
  "handle ev s = dispatch ev s s"

text \<open>The state after a sequence of such events, from page load.\<close>

definition run :: "event list \<Rightarrow> app_state" where
  "run evs = fold handle evs initial_state"

section \<open>JavaScript numbers\<close>

text \<open>
  A JavaScript number is an IEEE 754 binary64 value. The scene only computes with
  non-negative numbers (viewport dimensions, positive constants, their products,
  quotients and sums), so the model has the finite values as the rationals they denote,
  \<open>Infinity\<close> and \<open>NaN\<close>, and leaves out the negative numbers and the sign of zero.
  An arithmetic operation computes the exact result and rounds it to the nearest
  binary64 value, ties to the even significand; a result of magnitude \<open>2^1024\<close> or more
  after rounding is \<open>Infinity\<close>.
\<close>

datatype number = Finite rat | Infinity | NaN

text \<open>For \<open>x > 0\<close>, the integer \<open>k\<close> with \<open>2^k \<le> x < 2^(k+1)\<close>.\<close>

definition floor_log2 :: "rat \<Rightarrow> int" where
  "floor_log2 x =
     (let (p, q) = quotient_of x; k = bitlen p - bitlen q
      in if 2 powi k \<le> x then k else k - 1)"

definition round_half_even :: "rat \<Rightarrow> int" where
  "round_half_even x =
     (let n = \<lfloor>x\<rfloor>; d = x - of_int n
      in if d < 1 / 2 then n else if 1 / 2 < d then n + 1 else if even n then n else n + 1)"

text \<open>
  Rounding of a non-negative rational: the significand has 53 bits, the exponent of the
  last bit is at least \<open>-1074\<close> (below \<open>2^-1022\<close> the values are subnormal).
\<close>

definition round_double :: "rat \<Rightarrow> number" where
  "round_double x =
     (let e = max (floor_log2 x - 52) (- 1074);
          y = of_int (round_half_even (x / 2 powi e)) * 2 powi e
      in if 2 ^ 1024 \<le> y then Infinity else Finite y)"

fun js_add :: "number \<Rightarrow> number \<Rightarrow> number" where
  "js_add (Finite a) (Finite b) = round_double (a + b)"
| "js_add (Finite a) Infinity = Infinity"
| "js_add Infinity (Finite b) = Infinity"
| "js_add Infinity Infinity = Infinity"
| "js_add NaN b = NaN"
| "js_add (Finite a) NaN = NaN"
| "js_add Infinity NaN = NaN"

fun js_mul :: "number \<Rightarrow> number \<Rightarrow> number" where
  "js_mul (Finite a) (Finite b) = round_double (a * b)"
| "js_mul (Finite a) Infinity = (if a = 0 then NaN else Infinity)"
| "js_mul Infinity (Finite b) = (if b = 0 then NaN else Infinity)"
| "js_mul Infinity Infinity = Infinity"
| "js_mul NaN b = NaN"
| "js_mul (Finite a) NaN = NaN"
| "js_mul Infinity NaN = NaN"

fun js_div :: "number \<Rightarrow> number \<Rightarrow> number" where
  "js_div (Finite a) (Finite b) =
     (if b = 0 then (if a = 0 then NaN else Infinity) else round_double (a / b))"
| "js_div (Finite a) Infinity = Finite 0"
| "js_div Infinity (Finite b) = Infinity"
| "js_div Infinity Infinity = NaN"
| "js_div NaN b = NaN"
| "js_div (Finite a) NaN = NaN"
| "js_div Infinity NaN = NaN"

fun js_less :: "number \<Rightarrow> number \<Rightarrow> bool" where
  "js_less (Finite a) (Finite b) = (a < b)"
| "js_less (Finite a) Infinity = True"
| "js_less Infinity b = False"
| "js_less NaN b = False"
| "js_less (Finite a) NaN = False"

text \<open>The number of a non-negative integer, and of a decimal literal of the source.\<close>

definition number_of_nat :: "nat \<Rightarrow> number" where
  "number_of_nat n = round_double (of_nat n)"

definition literal :: "rat \<Rightarrow> number" where
  "literal decimal = round_double decimal"

section \<open>The decorative scene (lines 70-158)\<close>

text \<open>
  The effect works on the browser (window, frame scheduler, DOM), on the component's ref
  \<open>animationFrameId\<close> and on the Three.js objects it creates. The record \<open>page\<close> holds
  what outlives the effect, the record \<open>scene\<close> the objects the effect's closures share.
  The calls that register and release (listener, frame requests, children of the header,
  disposals), the writes of the two angles and the redraws are also appended to
  \<open>effects\<close>, in program order. The renderer's width and height are the ones it was
  last given by \<open>setSize\<close>.
\<close>

type_synonym node = nat

text \<open>What \<open>renderer.render(scene, camera)\<close> draws from.\<close>

record frame =
  drawn_rotation_x :: number
  drawn_rotation_y :: number
  drawn_width :: number
  drawn_height :: number
  drawn_aspect :: number

datatype effect =
  AddResizeListener
| RemoveResizeListener
| RequestFrame nat
| CancelFrame nat
| AppendChild node node
| RemoveChild node node
| SetRotationX number
| SetRotationY number
| Render frame
| DisposeRenderer
| DisposeGeometry
| DisposeMaterial

record page =
  innerWidth :: nat
  innerHeight :: nat
  devicePixelRatio :: number
  resize_listening :: bool
  last_handle :: nat
  frame_callbacks :: "nat list"
  animationFrameId :: "nat option"
  child_nodes :: "node \<Rightarrow> node list"
  effects :: "effect list"

record scene =
  currentHeaderRef :: "node option"
  domElement :: "node option"
  camera_aspect :: number
  projection_aspect :: number
  renderer_width :: number
  renderer_height :: number
  pixel_ratio :: number
  rotation_x :: number
  rotation_y :: number
  renderer_disposed :: bool
  geometry_disposed :: bool
  material_disposed :: bool

definition log_effect :: "effect \<Rightarrow> page \<Rightarrow> page" where
  "log_effect ef pg = pg\<lparr>effects := effects pg @ [ef]\<rparr>"

text \<open>
  \<open>requestAnimationFrame\<close> hands out the next handle, a positive integer, and puts the
  callback on the list the browser runs at the next display refresh;
  \<open>cancelAnimationFrame\<close> takes it off.
\<close>

definition requestAnimationFrame :: "page \<Rightarrow> nat \<times> page" where
  "requestAnimationFrame pg =
     (let h = Suc (last_handle pg)
      in (h, log_effect (RequestFrame h)
               (pg\<lparr>last_handle := h, frame_callbacks := frame_callbacks pg @ [h]\<rparr>)))"

definition cancelAnimationFrame :: "nat \<Rightarrow> page \<Rightarrow> page" where
  "cancelAnimationFrame h pg =
     log_effect (CancelFrame h) (pg\<lparr>frame_callbacks := removeAll h (frame_callbacks pg)\<rparr>)"

text \<open>
  \<open>appendChild\<close> moves the node to the end of the parent's children, taking it from
  where it was; \<open>removeChild\<close> throws \<open>NotFoundError\<close> for a node that is not a
  child of the parent.
\<close>

definition appendChild :: "node \<Rightarrow> node \<Rightarrow> page \<Rightarrow> page" where
  "appendChild parent child pg =
     log_effect (AppendChild parent child)
       (pg\<lparr>child_nodes := (\<lambda>n. if n = parent then removeAll child (child_nodes pg n) @ [child]
                                 else removeAll child (child_nodes pg n))\<rparr>)"

definition removeChild :: "node \<Rightarrow> node \<Rightarrow> page \<Rightarrow> dom_error + page" where
  "removeChild parent child pg =
     (if child \<in> set (child_nodes pg parent)
      then Inr (log_effect (RemoveChild parent child)
                  (pg\<lparr>child_nodes :=
                        (child_nodes pg)(parent := removeAll child (child_nodes pg parent))\<rparr>))
      else Inl NotFoundError)"

text \<open>
  The share of the viewport's height the surface takes: the literal \<open>0.4\<close> of lines
  79, 84 and 135.
\<close>

definition header_fraction :: number where
  "header_fraction = literal (4 / 10)"

text \<open>The two increments of line 126 and line 127.\<close>

definition rotation_step_x :: number where
  "rotation_step_x = literal (2 / 1000)"

definition rotation_step_y :: number where
  "rotation_step_y = literal (3 / 1000)"

text \<open>\<open>renderer.setSize\<close>, \<open>camera.updateProjectionMatrix\<close> and \<open>renderer.render\<close>.\<close>

definition setSize :: "number \<Rightarrow> number \<Rightarrow> scene \<Rightarrow> scene" where
  "setSize width height sc = sc\<lparr>renderer_width := width, renderer_height := height\<rparr>"

definition updateProjectionMatrix :: "scene \<Rightarrow> scene" where
  "updateProjectionMatrix sc = sc\<lparr>projection_aspect := camera_aspect sc\<rparr>"

definition render :: "scene \<Rightarrow> page \<Rightarrow> page" where
  "render sc pg =
     log_effect (Render \<lparr>drawn_rotation_x = rotation_x sc, drawn_rotation_y = rotation_y sc,
                         drawn_width = renderer_width sc, drawn_height = renderer_height sc,
                         drawn_aspect = projection_aspect sc\<rparr>) pg"

text \<open>\<open>animate\<close> (lines 123-130).\<close>

definition animate :: "scene \<Rightarrow> page \<Rightarrow> scene \<times> page" where
  "animate sc pg =
     (let (h, pg1) = requestAnimationFrame pg;
          pg2 = pg1\<lparr>animationFrameId := Some h\<rparr>;
          sc1 = sc\<lparr>rotation_x := js_add (rotation_x sc) rotation_step_x\<rparr>;
          pg3 = log_effect (SetRotationX (rotation_x sc1)) pg2;
          sc2 = sc1\<lparr>rotation_y := js_add (rotation_y sc1) rotation_step_y\<rparr>;
          pg4 = log_effect (SetRotationY (rotation_y sc2)) pg3
      in (sc2, render sc2 pg4))"

text \<open>\<open>onWindowResize\<close> (lines 133-139).\<close>

definition onWindowResize :: "scene \<Rightarrow> page \<Rightarrow> scene \<times> page" where
  "onWindowResize sc pg =
     (let newWidth = number_of_nat (innerWidth pg);
          newHeight = js_mul (number_of_nat (innerHeight pg)) header_fraction;
          sc1 = sc\<lparr>camera_aspect := js_div newWidth newHeight\<rparr>;
          sc2 = updateProjectionMatrix sc1
      in (setSize newWidth newHeight sc2, pg))"

text \<open>
  The objects the effect constructs (lines 75-120) for the header element \<open>header\<close>:
  the camera, whose constructor computes its projection from the aspect it is given, the
  renderer with its size and pixel ratio, and the solid with both angles at zero.
  \<open>canvas\<close> is the element the new renderer creates.
\<close>

definition new_scene :: "node \<Rightarrow> node \<Rightarrow> page \<Rightarrow> scene" where
  "new_scene header canvas pg =
     (let aspect =
            js_div (number_of_nat (innerWidth pg))
              (js_mul (number_of_nat (innerHeight pg)) header_fraction)
      in \<lparr>currentHeaderRef = Some header, domElement = Some canvas,
          camera_aspect = aspect, projection_aspect = aspect,
          renderer_width = number_of_nat (innerWidth pg),
          renderer_height = js_mul (number_of_nat (innerHeight pg)) header_fraction,
          pixel_ratio = devicePixelRatio pg,
          rotation_x = Finite 0, rotation_y = Finite 0,
          renderer_disposed = False, geometry_disposed = False,
          material_disposed = False\<rparr>)"

text \<open>
  The body of the effect after its guard (lines 74-143): the scene is constructed, the
  canvas appended to the header, the resize listener registered and \<open>animate\<close> called
  for the first time.
\<close>

definition mount :: "node \<Rightarrow> node \<Rightarrow> page \<Rightarrow> scene \<times> page" where
  "mount header canvas pg =
     (let sc = new_scene header canvas pg;
          pg1 = appendChild header canvas pg;
          pg2 = log_effect AddResizeListener (pg1\<lparr>resize_listening := True\<rparr>)
      in animate sc pg2)"

text \<open>
  The effect (lines 71-158): when \<open>headerRef.current\<close> is \<open>null\<close> it returns at line
  72, nothing is set up and there is no clean-up function.
\<close>

definition setup_scene :: "node option \<Rightarrow> node \<Rightarrow> page \<Rightarrow> (scene \<times> page) option" where
  "setup_scene headerRef canvas pg =
     (case headerRef of
        None \<Rightarrow> None
      | Some header \<Rightarrow> Some (mount header canvas pg))"

text \<open>
  The clean-up function (lines 146-157). A number is truthy unless it is zero, \<open>null\<close>
  is falsy; an exception of \<open>removeChild\<close> leaves the function.
\<close>

definition cleanup :: "scene \<Rightarrow> page \<Rightarrow> dom_error + (scene \<times> page)" where
  "cleanup sc pg =
     (let pg1 = log_effect RemoveResizeListener (pg\<lparr>resize_listening := False\<rparr>);
          pg2 = (case animationFrameId pg1 of
                   None \<Rightarrow> pg1
                 | Some h \<Rightarrow> if h \<noteq> 0 then cancelAnimationFrame h pg1 else pg1);
          removed = (case (currentHeaderRef sc, domElement sc) of
                       (Some header, Some canvas) \<Rightarrow> removeChild header canvas pg2
                     | _ \<Rightarrow> Inr pg2)
      in case removed of
           Inl err \<Rightarrow> Inl err
         | Inr pg3 \<Rightarrow>
             Inr (sc\<lparr>renderer_disposed := True, geometry_disposed := True,
                      material_disposed := True\<rparr>,
                  log_effect DisposeMaterial
                    (log_effect DisposeGeometry (log_effect DisposeRenderer pg3))))"

text \<open>
  What the browser does to a mounted scene: at a display refresh it takes the scheduled
  callbacks off the list and runs each (every one of them is \<open>animate\<close>); at a resize
  it updates the window's dimensions and calls the listener if it is registered.
\<close>

definition refresh :: "scene \<Rightarrow> page \<Rightarrow> scene \<times> page" where
  "refresh sc pg =
     fold (\<lambda>h (sc', pg'). animate sc' pg') (frame_callbacks pg)
       (sc, pg\<lparr>frame_callbacks := []\<rparr>)"

datatype scene_event = Refresh | Resize nat nat

fun scene_step :: "scene_event \<Rightarrow> scene \<times> page \<Rightarrow> scene \<times> page" where
  "scene_step Refresh (sc, pg) = refresh sc pg"
| "scene_step (Resize w h) (sc, pg) =
     (let pg' = pg\<lparr>innerWidth := w, innerHeight := h\<rparr>
      in if resize_listening pg' then onWindowResize sc pg' else (sc, pg'))"

text \<open>A page at load: no listener, no scheduled frame, \<open>animationFrameId\<close> is \<open>null\<close>.\<close>

definition new_page :: "nat \<Rightarrow> nat \<Rightarrow> number \<Rightarrow> (node \<Rightarrow> node list) \<Rightarrow> page" where
  "new_page w h dpr kids =
     \<lparr>innerWidth = w, innerHeight = h, devicePixelRatio = dpr, resize_listening = False,
      last_handle = 0, frame_callbacks = [], animationFrameId = None, child_nodes = kids,
      effects = []\<rparr>"

text \<open>A document in which no node has children.\<close>

definition no_children :: "node \<Rightarrow> node list" where
  "no_children n = []"

text \<open>For the examples: the page at load in a viewport of 1920 by 1080 pixels.\<close>

definition load_page :: page where
  "load_page = new_page 1920 1080 (Finite 1) no_children"

text \<open>The scene and the page after mounting at page load and a sequence of events.\<close>

definition scene_run :: "node \<Rightarrow> node \<Rightarrow> page \<Rightarrow> scene_event list \<Rightarrow> scene \<times> page" where
  "scene_run header canvas pg evs = fold scene_step evs (mount header canvas pg)"

text \<open>What holds of a mounted scene between two events.\<close>

definition scene_inv :: "node \<Rightarrow> node \<Rightarrow> scene \<times> page \<Rightarrow> bool" where
  "scene_inv header canvas w =
     (let sc = fst w; pg = snd w
      in frame_callbacks pg = [last_handle pg]
         \<and> animationFrameId pg = Some (last_handle pg)
         \<and> 0 < last_handle pg
         \<and> resize_listening pg
         \<and> currentHeaderRef sc = Some header
         \<and> domElement sc = Some canvas
         \<and> canvas \<in> set (child_nodes pg header)
         \<and> renderer_width sc = number_of_nat (innerWidth pg)
         \<and> renderer_height sc = js_mul (number_of_nat (innerHeight pg)) header_fraction
         \<and> camera_aspect sc = js_div (renderer_width sc) (renderer_height sc)
         \<and> projection_aspect sc = camera_aspect sc)"

text \<open>\<open>n\<close> calls of \<open>animate\<close>, one per frame tick.\<close>

fun ticks :: "nat \<Rightarrow> scene \<times> page \<Rightarrow> scene \<times> page" where
  "ticks 0 w = w"
| "ticks (Suc n) w = ticks n (animate (fst w) (snd w))"

section \<open>Properties of the visibility tracker\<close>

lemma keys_update_member:
  "k \<in> set (object_keys obj) \<Longrightarrow> object_keys (AList.update k v obj) = object_keys obj"
  by (simp add: object_keys_def update_keys)

lemma keys_process_entry:
  "object_keys iv = object_keys prev \<Longrightarrow>
   object_keys (process_entry iv e prev) = object_keys prev"
  by (simp add: process_entry_def Let_def keys_update_member)

lemma keys_observerCallback:
  "object_keys iv = object_keys prev \<Longrightarrow>
   object_keys (observerCallback iv entries prev) = object_keys prev"
  unfolding observerCallback_def
  by (induction entries arbitrary: prev) (simp_all add: keys_process_entry)

lemma keys_dispatch:
  "object_keys (inView rendered) = object_keys (inView s) \<Longrightarrow>
   object_keys (inView (dispatch ev rendered s)) = object_keys (inView s)"
  by (cases ev)
    (simp_all add: keys_observerCallback handleScroll_def toggle_menu_def mobile_link_click_def)

lemma keys_handle: "object_keys (inView (handle ev s)) = object_keys (inView s)"
  by (simp add: handle_def keys_dispatch)

lemma keys_fold_handle:
  "object_keys (inView (fold handle evs s)) = object_keys (inView s)"
  by (induction evs arbitrary: s) (simp_all add: keys_handle)

lemma keys_initial: "object_keys initial_inView = section_ids"
  by (simp add: object_keys_def initial_inView_def section_ids_def)

lemma keys_run: "object_keys (inView (run evs)) = section_ids"
  by (simp add: run_def keys_fold_handle initial_state_def keys_initial)


lemma process_unknown_entry:
  "element_id (target e) \<notin> set (object_keys iv) \<Longrightarrow> process_entry iv e prev = prev"
  by (simp add: process_entry_def)

lemma observerCallback_append:
  "observerCallback iv (es @ es') prev = observerCallback iv es' (observerCallback iv es prev)"
  by (simp add: observerCallback_def)

lemma observerCallback_Cons:
  "observerCallback iv (e # es) prev = observerCallback iv es (process_entry iv e prev)"
  by (simp add: observerCallback_def)

lemma observerCallback_single:
  "observerCallback iv [e] prev = process_entry iv e prev"
  by (simp add: observerCallback_def)



text \<open>
  C6. For every identifier \<open>sid\<close> outside the six section identifiers: whichever render
  created the callback and wherever in a batch the entry for \<open>sid\<close> stands, the batch
  leaves the state as the batch without this entry does; a batch of this entry alone
  leaves the whole state, and so every flag, as it was.
\<close>

theorem unknown_identifier_ignored:
  assumes "sid \<notin> set section_ids"
  shows "dispatch (Intersection (es1 @ [\<lparr>target = Element sid, isIntersecting = b\<rparr>] @ es2))
           (run evs) s
         = dispatch (Intersection (es1 @ es2)) (run evs) s
       \<and> dispatch (Intersection [\<lparr>target = Element sid, isIntersecting = b\<rparr>]) (run evs) s = s
       \<and> handle (Intersection [\<lparr>target = Element sid, isIntersecting = b\<rparr>]) (run evs)
           = run evs"
proof -
  let ?e = "\<lparr>target = Element sid, isIntersecting = b\<rparr>"
  have "element_id (target ?e) \<notin> set (object_keys (inView (run evs)))"
    using assms by (simp add: keys_run)
  then have skip: "process_entry (inView (run evs)) ?e prev = prev" for prev
    by (rule process_unknown_entry)
  have "observerCallback (inView (run evs)) (es1 @ [?e] @ es2) prev
        = observerCallback (inView (run evs)) (es1 @ es2) prev" for prev
    by (simp add: observerCallback_append observerCallback_Cons skip)
  moreover have "observerCallback (inView (run evs)) [?e] prev = prev" for prev
    by (simp add: observerCallback_single skip)
  ultimately show ?thesis
    by (simp add: handle_def)
qed

theorem unknown_identifier_ignored_witness:
  "''footer'' \<notin> set section_ids
   \<and> dispatch (Intersection [\<lparr>target = Element ''skills'', isIntersecting = True\<rparr>,
                             \<lparr>target = Element ''footer'', isIntersecting = True\<rparr>,
                             \<lparr>target = Element ''summary'', isIntersecting = True\<rparr>])
        (run [MenuToggle]) (run [MenuToggle])
      = dispatch (Intersection [\<lparr>target = Element ''skills'', isIntersecting = True\<rparr>,
                                \<lparr>target = Element ''summary'', isIntersecting = True\<rparr>])
          (run [MenuToggle]) (run [MenuToggle])
   \<and> inView (dispatch (Intersection [\<lparr>target = Element ''skills'', isIntersecting = True\<rparr>,
                             \<lparr>target = Element ''footer'', isIntersecting = True\<rparr>,
                             \<lparr>target = Element ''summary'', isIntersecting = True\<rparr>])
        (run [MenuToggle]) (run [MenuToggle]))
      = [(''summary'', True), (''skills'', True), (''experience'', False),
         (''projects'', False), (''achievements'', False), (''education'', False)]
   \<and> handle (Intersection [\<lparr>target = Element ''footer'', isIntersecting = True\<rparr>])
        (run [MenuToggle]) = run [MenuToggle]"
proof -
  have h: "''footer'' \<notin> set section_ids"
    by (simp add: section_ids_def)
  have r: "inView (run [MenuToggle]) = initial_inView"
    by (simp add: run_def handle_def initial_state_def toggle_menu_def)
  have "inView (dispatch (Intersection [\<lparr>target = Element ''skills'', isIntersecting = True\<rparr>,
                             \<lparr>target = Element ''summary'', isIntersecting = True\<rparr>])
        (run [MenuToggle]) (run [MenuToggle]))
      = [(''summary'', True), (''skills'', True), (''experience'', False),
         (''projects'', False), (''achievements'', False), (''education'', False)]"
    by (simp add: r observerCallback_def process_entry_def object_keys_def initial_inView_def)
  with unknown_identifier_ignored
         [OF h, of "[\<lparr>target = Element ''skills'', isIntersecting = True\<rparr>]" True
            "[\<lparr>target = Element ''summary'', isIntersecting = True\<rparr>]" "[MenuToggle]"
            "run [MenuToggle]"]
       h
  show ?thesis by simp
qed

text \<open>
  C7. At page load all six flags are false, and after every sequence of events the keys of
  \<open>inView\<close> are the six section identifiers, each once and in the order of the initial
  object: no update adds or removes a key.
\<close>

theorem section_keys_invariant:
  "inView (run []) =
     [(''summary'', False), (''skills'', False), (''experience'', False),
      (''projects'', False), (''achievements'', False), (''education'', False)]
   \<and> object_keys (inView (run evs)) =
     [''summary'', ''skills'', ''experience'', ''projects'', ''achievements'', ''education'']
   \<and> distinct (object_keys (inView (run evs)))"
proof -
  have "inView (run []) = initial_inView"
    by (simp add: run_def initial_state_def)
  moreover have "object_keys (inView (run evs)) = section_ids"
    by (rule keys_run)
  moreover have "distinct section_ids"
    by (simp add: section_ids_def)
  ultimately show ?thesis
    by (simp add: initial_inView_def section_ids_def)
qed

theorem section_keys_invariant_witness:
  "object_keys (inView (run [Intersection [\<lparr>target = Element ''projects'', isIntersecting = True\<rparr>,
                                         \<lparr>target = Element ''footer'', isIntersecting = True\<rparr>],
                            Scroll 400])) =
     [''summary'', ''skills'', ''experience'', ''projects'', ''achievements'', ''education'']"
  using section_keys_invariant
    [of "[Intersection [\<lparr>target = Element ''projects'', isIntersecting = True\<rparr>,
                        \<lparr>target = Element ''footer'', isIntersecting = True\<rparr>],
          Scroll 400]"]
  by simp

lemma observe_each_targets:
  "\<exists>ob'. observe_each refs ob = Inr ob'
         \<and> set (targets ob') = set (targets ob) \<union> {el. Some el \<in> set refs}
         \<and> (distinct (targets ob) \<longrightarrow> distinct (targets ob'))"
proof (induction refs arbitrary: ob)
  case Nil
  then show ?case by simp
next
  case (Cons current refs)
  show ?case
  proof (cases current)
    case None
    with Cons.IH [of ob] show ?thesis by auto
  next
    case (Some el)
    let ?ob1 = "if el \<in> set (targets ob) then ob else ob\<lparr>targets := targets ob @ [el]\<rparr>"
    from Cons.IH [of ?ob1] obtain ob' where
      ob': "observe_each refs ?ob1 = Inr ob'"
        "set (targets ob') = set (targets ?ob1) \<union> {el. Some el \<in> set refs}"
        "distinct (targets ?ob1) \<longrightarrow> distinct (targets ob')"
      by blast
    have "observe_each (current # refs) ob = Inr ob'"
      using Some ob'(1) by simp
    moreover have "set (targets ob') = set (targets ob) \<union> {el. Some el \<in> set (current # refs)}"
      using Some ob'(2) by auto
    moreover have "distinct (targets ob) \<longrightarrow> distinct (targets ob')"
      using ob'(3) by auto
    ultimately show ?thesis by blast
  qed
qed

text \<open>
  C9. Whatever regions are attached when the observer is registered, the registration
  does not fail, and the observer then observes exactly the elements of the attached
  regions, each once: a region whose ref holds no element is passed over.
\<close>

theorem registration_skips_unattached:
  "\<exists>ob. register_sections sectionRefs = Inr ob
        \<and> set (targets ob) = {el. Some el \<in> set (object_values sectionRefs)}
        \<and> distinct (targets ob)"
  using observe_each_targets [of "object_values sectionRefs" new_observer]
  by (auto simp add: register_sections_def new_observer_def)

theorem registration_skips_unattached_witness:
  "(\<exists>ob. register_sections
            [(''summary'', Some (Element ''summary'')), (''skills'', None),
             (''experience'', Some (Element ''experience''))] = Inr ob
         \<and> set (targets ob) =
             {el. Some el \<in> set (object_values
                [(''summary'', Some (Element ''summary'')), (''skills'', None),
                 (''experience'', Some (Element ''experience''))])}
         \<and> distinct (targets ob))
   \<and> register_sections
        [(''summary'', Some (Element ''summary'')), (''skills'', None),
         (''experience'', Some (Element ''experience''))]
      = Inr \<lparr>targets = [Element ''summary'', Element ''experience'']\<rparr>"
proof -
  have "register_sections
          [(''summary'', Some (Element ''summary'')), (''skills'', None),
           (''experience'', Some (Element ''experience''))]
        = Inr \<lparr>targets = [Element ''summary'', Element ''experience'']\<rparr>"
    by (simp add: register_sections_def object_values_def new_observer_def)
  with registration_skips_unattached
         [of "[(''summary'', Some (Element ''summary'')), (''skills'', None),
               (''experience'', Some (Element ''experience''))]"]
  show ?thesis by blast
qed

section \<open>Properties of the scroll handler and of the mobile menu\<close>

text \<open>
  C5, as the spec states it, puts the position 300 on the side where the control is
  present. After the scroll handler has seen the position 300 the control is not rendered.
\<close>

theorem back_to_top_at_300_counterexample:
  "(300::rat) \<ge> 300 \<and> \<not> back_to_top_rendered (handle (Scroll 300) initial_state)"
  by (simp add: back_to_top_rendered_def handle_def handleScroll_def)

text \<open>
  C5, amended. For every scroll position \<open>p\<close>, after the scroll handler has run the
  "back to top" control is rendered exactly when \<open>p\<close> is above 300 pixels: it is absent at
  every position up to and including 300, and present at every position beyond 300.
\<close>

theorem back_to_top_threshold:
  "back_to_top_rendered (handle (Scroll p) s) = (300 < p)"
  by (simp add: back_to_top_rendered_def handle_def handleScroll_def)

theorem back_to_top_threshold_witness:
  "\<not> back_to_top_rendered (handle (Scroll 299) initial_state)
   \<and> \<not> back_to_top_rendered (handle (Scroll 300) initial_state)
   \<and> back_to_top_rendered (handle (Scroll (601 / 2)) initial_state)
   \<and> back_to_top_rendered (handle (Scroll 301) initial_state)"
  using back_to_top_threshold [of 299 initial_state] back_to_top_threshold [of 300 initial_state]
    back_to_top_threshold [of "601 / 2" initial_state] back_to_top_threshold [of 301 initial_state]
  by simp

text \<open>
  C10, as the spec states it, has every activation of the menu button flip the state, so
  that two activations in a row give back the state before them. Two activations of the
  handler of one render, at page load, leave the menu open: the second sets what the first
  has set.
\<close>

theorem menu_toggle_same_render_counterexample:
  "\<not> isMobileMenuOpen initial_state
   \<and> isMobileMenuOpen (dispatch MenuToggle initial_state initial_state)
   \<and> isMobileMenuOpen
       (dispatch MenuToggle initial_state (dispatch MenuToggle initial_state initial_state))
   \<and> dispatch MenuToggle initial_state (dispatch MenuToggle initial_state initial_state)
       \<noteq> initial_state"
proof -
  have "isMobileMenuOpen
          (dispatch MenuToggle initial_state (dispatch MenuToggle initial_state initial_state))"
    by (simp add: toggle_menu_def initial_state_def)
  moreover have "\<not> isMobileMenuOpen initial_state"
    by (simp add: initial_state_def)
  moreover have "isMobileMenuOpen (dispatch MenuToggle initial_state initial_state)"
    by (simp add: toggle_menu_def initial_state_def)
  ultimately show ?thesis
    by auto
qed

text \<open>
  C10, amended. An activation of the menu button sets \<open>isMobileMenuOpen\<close> to the negation
  of the value captured by the render that created its handler, whatever the state is by
  then. On a page rendered from the current state an activation therefore flips the state,
  and two activations with a render between them give back the state before them. A click
  on a link of the mobile menu closes the menu whatever it was and whichever render created
  the handler.
\<close>

theorem menu_toggle_between_renders:
  "isMobileMenuOpen (dispatch MenuToggle rendered s) = (\<not> isMobileMenuOpen rendered)
   \<and> isMobileMenuOpen (handle MenuToggle s) = (\<not> isMobileMenuOpen s)
   \<and> handle MenuToggle (handle MenuToggle s) = s
   \<and> isMobileMenuOpen (dispatch (MobileLink item) rendered s) = False
   \<and> isMobileMenuOpen (handle (MobileLink item) s) = False"
  by (simp add: handle_def toggle_menu_def mobile_link_click_def)

theorem menu_toggle_between_renders_witness:
  "isMobileMenuOpen (handle MenuToggle initial_state)
   \<and> handle MenuToggle (handle MenuToggle initial_state) = initial_state
   \<and> isMobileMenuOpen (dispatch MenuToggle initial_state (handle MenuToggle initial_state))
   \<and> \<not> isMobileMenuOpen (handle (MobileLink ''Skills'') (handle MenuToggle initial_state))"
  using menu_toggle_between_renders [of initial_state initial_state]
    menu_toggle_between_renders [of initial_state "handle MenuToggle initial_state" "''Skills''"]
  by (simp add: initial_state_def)

section \<open>Properties of the numbers\<close>

lemma bitlen_powi_bounds:
  assumes "0 < p"
  shows "(2::rat) powi (bitlen p - 1) \<le> of_int p" and "of_int p < (2::rat) powi bitlen p"
proof -
  from bitlen_bounds [OF assms]
  have lo: "2 ^ nat (bitlen p - 1) \<le> p" and hi: "p < 2 ^ nat (bitlen p)" by simp_all
  have pos: "1 \<le> bitlen p" using assms by (simp add: bitlen_alt_def)
  have "(of_int (2 ^ nat (bitlen p - 1)) :: rat) \<le> of_int p"
    using lo by (simp only: of_int_le_iff)
  then show "(2::rat) powi (bitlen p - 1) \<le> of_int p"
    using pos by (simp add: power_int_def)
  have "(of_int p :: rat) < of_int (2 ^ nat (bitlen p))"
    using hi by (simp only: of_int_less_iff)
  then show "of_int p < (2::rat) powi bitlen p"
    using pos by (simp add: power_int_def)
qed

lemma floor_log2_bounds:
  assumes "0 < x"
  shows "2 powi floor_log2 x \<le> x" and "x < 2 powi (floor_log2 x + 1)"
proof -
  obtain p q where pq: "quotient_of x = (p, q)" by (cases "quotient_of x")
  then have q: "0 < q" and x: "x = of_int p / of_int q"
    by (simp_all add: quotient_of_denom_pos quotient_of_div)
  have p: "0 < p" using assms q x by (simp add: zero_less_divide_iff)
  define k where "k = bitlen p - bitlen q"
  have q': "(0::rat) < of_int q" using q by simp
  have "x < 2 powi bitlen p / 2 powi (bitlen q - 1)"
  proof -
    have "x < 2 powi bitlen p / of_int q"
      unfolding x using bitlen_powi_bounds(2) [OF p] q' by (simp add: divide_strict_right_mono)
    also have "\<dots> \<le> 2 powi bitlen p / 2 powi (bitlen q - 1)"
      using bitlen_powi_bounds(1) [OF q] q' by (intro divide_left_mono) (simp_all add: zero_less_power_int)
    finally show ?thesis .
  qed
  then have up: "x < 2 powi (k + 1)"
    by (simp add: k_def power_int_diff [symmetric] algebra_simps)
  have "2 powi (bitlen p - 1) / 2 powi bitlen q < x"
  proof -
    have "(2::rat) powi (bitlen p - 1) / 2 powi bitlen q < 2 powi (bitlen p - 1) / of_int q"
      using bitlen_powi_bounds(2) [OF q] q' by (intro divide_strict_left_mono) (simp_all add: zero_less_power_int)
    also have "\<dots> \<le> x"
      unfolding x using bitlen_powi_bounds(1) [OF p] q' by (simp add: divide_right_mono)
    finally show ?thesis .
  qed
  then have lo: "2 powi (k - 1) < x"
    by (simp add: k_def power_int_diff [symmetric] algebra_simps)
  have fl: "floor_log2 x = (if 2 powi k \<le> x then k else k - 1)"
    by (simp add: floor_log2_def pq k_def Let_def)
  show "2 powi floor_log2 x \<le> x" using lo by (simp add: fl)
  show "x < 2 powi (floor_log2 x + 1)" using up by (simp add: fl)
qed

lemma powi2_mono: "a \<le> b \<Longrightarrow> (2::rat) powi a \<le> 2 powi b"
  by (rule power_int_increasing) simp_all

lemma floor_log2_unique:
  assumes "0 < x" "2 powi k \<le> x" "x < 2 powi (k + 1)"
  shows "floor_log2 x = k"
proof (rule antisym)
  show "floor_log2 x \<le> k"
  proof (rule ccontr)
    assume "\<not> floor_log2 x \<le> k"
    then have "k + 1 \<le> floor_log2 x" by simp
    then have "(2::rat) powi (k + 1) \<le> 2 powi floor_log2 x" by (rule powi2_mono)
    with floor_log2_bounds(1) [OF assms(1)] assms(3) show False by simp
  qed
  show "k \<le> floor_log2 x"
  proof (rule ccontr)
    assume "\<not> k \<le> floor_log2 x"
    then have "floor_log2 x + 1 \<le> k" by simp
    then have "(2::rat) powi (floor_log2 x + 1) \<le> 2 powi k" by (rule powi2_mono)
    with floor_log2_bounds(2) [OF assms(1)] assms(2) show False by simp
  qed
qed

lemma round_half_even_error: "\<bar>of_int (round_half_even x) - x\<bar> \<le> 1 / 2"
proof -
  have "of_int \<lfloor>x\<rfloor> \<le> x" "x < of_int \<lfloor>x\<rfloor> + 1" by linarith+
  then show ?thesis
    by (auto simp add: round_half_even_def Let_def abs_le_iff)
qed


lemma powi2_pos: "(0::rat) < 2 powi k"
  by (simp add: zero_less_power_int)

lemma round_double_exponent:
  assumes "0 < x" "2 powi (e + 52) \<le> x" "x < 2 powi (e + 53)" "- 1074 \<le> e"
  shows "round_double x =
     (if (2::rat) ^ 1024 \<le> of_int (round_half_even (x / 2 powi e)) * 2 powi e then Infinity
      else Finite (of_int (round_half_even (x / 2 powi e)) * 2 powi e))"
proof -
  have "x < 2 powi (e + 52 + 1)" using assms(3) by (simp add: add.commute add.left_commute)
  with assms have "floor_log2 x = e + 52"
    by (intro floor_log2_unique) simp_all
  then have "max (floor_log2 x - 52) (- 1074) = e"
    using assms(4) by simp
  then show ?thesis
    by (simp add: round_double_def Let_def)
qed

lemma round_double_relative_error:
  assumes "2 powi (- 1022) \<le> x" "x < 2 ^ 1023"
  shows "\<exists>y. round_double x = Finite y \<and> \<bar>y - x\<bar> \<le> x / 2 ^ 53"
proof -
  have x: "0 < x" using assms(1) powi2_pos [of "- 1022"] by linarith
  define e where "e = floor_log2 x - 52"
  define m where "m = round_half_even (x / 2 powi e)"
  define y :: rat where "y = of_int m * 2 powi e"
  have lo: "2 powi (e + 52) \<le> x" and hi: "x < 2 powi (e + 53)"
    using floor_log2_bounds [OF x] by (simp_all add: e_def add.commute)
  have e: "- 1074 \<le> e"
  proof (rule ccontr)
    assume "\<not> - 1074 \<le> e"
    then have "e + 53 \<le> - 1022" by simp
    then have "(2::rat) powi (e + 53) \<le> 2 powi (- 1022)" by (rule powi2_mono)
    with hi assms(1) show False by simp
  qed
  have pe: "(0::rat) < 2 powi e" by (rule powi2_pos)
  have "\<bar>of_int m - x / 2 powi e\<bar> \<le> 1 / 2"
    unfolding m_def by (rule round_half_even_error)
  then have "\<bar>of_int m - x / 2 powi e\<bar> * 2 powi e \<le> 1 / 2 * 2 powi e"
    using pe by (intro mult_right_mono) simp_all
  moreover have "\<bar>of_int m - x / 2 powi e\<bar> * 2 powi e = \<bar>y - x\<bar>"
  proof -
    have "\<bar>of_int m - x / 2 powi e\<bar> * 2 powi e = \<bar>(of_int m - x / 2 powi e) * 2 powi e\<bar>"
      using pe by (simp add: abs_mult)
    also have "(of_int m - x / 2 powi e) * 2 powi e = y - x"
      using pe by (simp add: y_def algebra_simps)
    finally show ?thesis .
  qed
  ultimately have err: "\<bar>y - x\<bar> \<le> 2 powi e / 2" by simp
  have "(2::rat) powi (e + 52) = 2 powi e * 2 ^ 52"
    by (simp add: power_int_add)
  with lo have "2 powi e * 2 ^ 52 \<le> x" by simp
  then have "2 powi e / 2 \<le> x / 2 ^ 53" by simp
  with err have rel: "\<bar>y - x\<bar> \<le> x / 2 ^ 53" by simp
  have "x / 2 ^ 53 \<le> x" using x by (simp add: field_simps)
  with rel have "y \<le> 2 * x" by linarith
  with assms(2) have "y < 2 ^ 1024" by simp
  then have "round_double x = Finite y"
    using round_double_exponent [OF x lo hi e] by (simp add: y_def m_def)
  with rel show ?thesis by blast
qed


lemma accumulate_bound:
  assumes "2 powi (- 1022) \<le> r" "r \<le> 1" "n \<le> 2 ^ 53"
  shows "\<exists>v. ((\<lambda>a. js_add a (Finite r)) ^^ n) (Finite 0) = Finite v
           \<and> \<bar>v - of_nat n * r\<bar> \<le> of_nat n * of_nat n * r / 2 ^ 53"
  using assms(3)
proof (induction n)
  case 0
  then show ?case by simp
next
  case (Suc n)
  define N :: rat where "N = of_nat n"
  define U :: rat where "U = 2 ^ 53"
  have r: "0 < r" using assms(1) powi2_pos [of "- 1022"] by linarith
  have U: "0 < U" by (simp add: U_def)
  have "Suc n \<le> 2 ^ 53" using Suc.prems .
  then have "(of_nat (Suc n) :: rat) \<le> of_nat (2 ^ 53)" by (simp only: of_nat_le_iff)
  then have N1: "N + 1 \<le> U" by (simp add: N_def U_def add.commute)
  have N0: "0 \<le> N" by (simp add: N_def)
  from Suc.prems have "n \<le> 2 ^ 53" by simp
  from Suc.IH [OF this] obtain v where
    v: "((\<lambda>a. js_add a (Finite r)) ^^ n) (Finite 0) = Finite v"
    and ih: "\<bar>v - N * r\<bar> \<le> N * N * r / U"
    by (auto simp add: N_def U_def)
  have "N * N \<le> N * U" using N0 N1 by (intro mult_left_mono) simp_all
  then have "N * N * r \<le> N * U * r" using r by (intro mult_right_mono) simp_all
  then have "N * N * r / U \<le> N * U * r / U" using U by (intro divide_right_mono) simp_all
  then have q: "N * N * r / U \<le> N * r" using U by simp
  have v_lo: "0 \<le> v" and v_hi: "v \<le> N * r + N * N * r / U"
    using ih q by (simp_all add: abs_le_iff)
  define x where "x = v + r"
  have x_lo: "2 powi (- 1022) \<le> x" using assms(1) v_lo by (simp add: x_def)
  have "N * r \<le> N * 1" using N0 assms(2) by (intro mult_left_mono) simp_all
  then have "N * r \<le> U" using N1 by simp
  then have "x \<le> 2 * U + 1" using v_hi q assms(2) by (simp add: x_def)
  also have "\<dots> < 2 ^ 1023" by (simp add: U_def)
  finally have x_hi: "x < 2 ^ 1023" .
  from round_double_relative_error [OF x_lo x_hi] obtain y where
    y: "round_double x = Finite y" and err: "\<bar>y - x\<bar> \<le> x / U"
    by (auto simp add: U_def)
  have "x \<le> N * r + N * N * r / U + r" using v_hi by (simp add: x_def)
  then have "x / U \<le> (N * r + N * N * r / U + r) / U"
    using U by (intro divide_right_mono) simp_all
  moreover have "(N * r + N * N * r / U + r) / U + N * N * r / U
                 \<le> (N + 1) * (N + 1) * r / U"
  proof -
    have "N * r + N * N * r / U + r + N * N * r \<le> (N + 1) * (N + 1) * r"
      using q by (simp add: algebra_simps)
    then have "(N * r + N * N * r / U + r + N * N * r) / U \<le> (N + 1) * (N + 1) * r / U"
      using U by (intro divide_right_mono) simp_all
    then show ?thesis by (simp add: add_divide_distrib)
  qed
  moreover have "\<bar>y - (N + 1) * r\<bar> \<le> \<bar>y - x\<bar> + \<bar>v - N * r\<bar>"
    by (simp add: x_def algebra_simps)
  ultimately have "\<bar>y - (N + 1) * r\<bar> \<le> (N + 1) * (N + 1) * r / U"
    using err ih by linarith
  moreover have "((\<lambda>a. js_add a (Finite r)) ^^ Suc n) (Finite 0) = Finite y"
    using v y by (simp add: x_def)
  ultimately show ?case
    by (simp add: N_def U_def add.commute)
qed

lemma round_half_even_nearest:
  assumes "\<bar>t - of_int m\<bar> * 2 < 1 \<or> (\<bar>t - of_int m\<bar> * 2 = 1 \<and> even m)"
  shows "round_half_even t = m"
proof -
  have fl: "of_int \<lfloor>t\<rfloor> \<le> t" "t < of_int \<lfloor>t\<rfloor> + 1" by linarith+
  consider "\<lfloor>t\<rfloor> = m" | "\<lfloor>t\<rfloor> = m - 1"
  proof -
    from assms have "\<bar>t - of_int m\<bar> * 2 \<le> 1" by auto
    then have "\<bar>t - of_int m\<bar> \<le> 1 / 2" by simp
    then have "t - of_int m \<le> 1 / 2" "- (t - of_int m) \<le> 1 / 2" by (simp_all only: abs_le_iff)
    then have "of_int m - 1 < t" "t < of_int m + 1" by simp_all
    then have "of_int (m - 1) \<le> t" "t < of_int (m + 1)" by simp_all
    then have "m - 1 \<le> \<lfloor>t\<rfloor>" "\<lfloor>t\<rfloor> < m + 1" by (simp_all only: le_floor_iff floor_less_iff)
    then have "\<lfloor>t\<rfloor> = m \<or> \<lfloor>t\<rfloor> = m - 1" by linarith
    with that show ?thesis by blast
  qed
  then show ?thesis
  proof cases
    case 1
    with assms fl show ?thesis
      by (auto simp add: round_half_even_def Let_def abs_if split: if_splits)
  next
    case 2
    with assms fl show ?thesis
      by (auto simp add: round_half_even_def Let_def abs_if split: if_splits)
  qed
qed

lemma round_double_certificate:
  assumes "s = 2 powi e" "- 1074 \<le> e" "2 ^ 52 * s \<le> x" "x < 2 ^ 53 * s"
    and "\<bar>x - of_int m * s\<bar> * 2 < s \<or> (\<bar>x - of_int m * s\<bar> * 2 = s \<and> even m)"
    and "of_int m * s < 2 ^ 1024"
  shows "round_double x = Finite (of_int m * s)"
proof -
  have s: "0 < s" using assms(1) by (simp add: powi2_pos)
  have x: "0 < x"
  proof -
    have "0 < 2 ^ 52 * s" using s by simp
    with assms(3) show ?thesis by linarith
  qed
  have "(2::rat) powi (e + 52) = 2 ^ 52 * s" "(2::rat) powi (e + 53) = 2 ^ 53 * s"
    by (simp_all add: assms(1) power_int_add)
  with assms have lo: "2 powi (e + 52) \<le> x" and hi: "x < 2 powi (e + 53)" by simp_all
  have scaled: "\<bar>x / s - of_int m\<bar> * 2 = \<bar>x - of_int m * s\<bar> * 2 / s"
  proof -
    have "x / s - of_int m = (x - of_int m * s) / s" using s by (simp add: field_simps)
    then show ?thesis using s by (simp add: abs_divide)
  qed
  have "\<bar>x / s - of_int m\<bar> * 2 < 1 \<or> (\<bar>x / s - of_int m\<bar> * 2 = 1 \<and> even m)"
    using assms(5) s unfolding scaled by (auto simp add: field_simps)
  then have "round_half_even (x / s) = m" by (rule round_half_even_nearest)
  then show ?thesis
    using round_double_exponent [OF x lo hi assms(2)] assms(6) by (simp add: assms(1))
qed

subsection \<open>Values of the constants and of some operations\<close>

lemma rotation_step_x_value: "rotation_step_x = Finite (1152921504606847 / 576460752303423488)"
  unfolding rotation_step_x_def literal_def
  using round_double_certificate [of "1 / 2 ^ 61" "- 61" "2 / 1000" 4611686018427388]
  by (simp add: power_int_minus)

lemma rotation_step_y_value: "rotation_step_y = Finite (3458764513820541 / 1152921504606846976)"
  unfolding rotation_step_y_def literal_def
  using round_double_certificate [of "1 / 2 ^ 61" "- 61" "3 / 1000" 6917529027641082]
  by (simp add: power_int_minus)

lemma header_fraction_value: "header_fraction = Finite (3602879701896397 / 9007199254740992)"
  unfolding header_fraction_def literal_def
  using round_double_certificate [of "1 / 2 ^ 54" "- 54" "4 / 10" 7205759403792794]
  by (simp add: power_int_minus)

lemma number_of_10: "number_of_nat 10 = Finite 10"
  unfolding number_of_nat_def
  using round_double_certificate [of "1 / 2 ^ 49" "- 49" "10" 5629499534213120]
  by (simp add: power_int_minus)

lemma number_of_1920: "number_of_nat 1920 = Finite 1920"
  unfolding number_of_nat_def
  using round_double_certificate [of "1 / 2 ^ 42" "- 42" "1920" 8444249301319680]
  by (simp add: power_int_minus)

lemma number_of_1080: "number_of_nat 1080 = Finite 1080"
  unfolding number_of_nat_def
  using round_double_certificate [of "1 / 2 ^ 42" "- 42" "1080" 4749890231992320]
  by (simp add: power_int_minus)

lemma number_of_1366: "number_of_nat 1366 = Finite 1366"
  unfolding number_of_nat_def
  using round_double_certificate [of "1 / 2 ^ 42" "- 42" "1366" 6007731534168064]
  by (simp add: power_int_minus)

lemma number_of_768: "number_of_nat 768 = Finite 768"
  unfolding number_of_nat_def
  using round_double_certificate [of "1 / 2 ^ 43" "- 43" "768" 6755399441055744]
  by (simp add: power_int_minus)

lemma height_1080: "js_mul (number_of_nat 1080) header_fraction = Finite 432"
  using round_double_certificate [of "1 / 2 ^ 44" "- 44" "1080 * (3602879701896397 / 9007199254740992)" 7599824371187712]
  by (simp add: number_of_1080 header_fraction_value power_int_minus)

lemma height_768: "js_mul (number_of_nat 768) header_fraction = Finite (1351079888211149 / 4398046511104)"
  using round_double_certificate [of "1 / 2 ^ 44" "- 44" "768 * (3602879701896397 / 9007199254740992)" 5404319552844596]
  by (simp add: number_of_768 header_fraction_value power_int_minus)

lemma aspect_1920_1080:
  "js_div (Finite 1920) (Finite 432) = Finite (2501999792983609 / 562949953421312)"
  using round_double_certificate [of "1 / 2 ^ 50" "- 50" "1920 / 432" 5003999585967218]
  by (simp add: power_int_minus)

lemma aspect_1366_768:
  "js_div (Finite 1366) (Finite (1351079888211149 / 4398046511104))
     = Finite (5006442945140053 / 1125899906842624)"
  using round_double_certificate [of "1 / 2 ^ 50" "- 50" "1366 / (1351079888211149 / 4398046511104)" 5006442945140053]
  by (simp add: power_int_minus)

lemma ten_times_step_x:
  "js_mul (number_of_nat 10) rotation_step_x = Finite (5764607523034235 / 288230376151711744)"
  using round_double_certificate [of "1 / 2 ^ 58" "- 58" "10 * (1152921504606847 / 576460752303423488)" 5764607523034235]
  by (simp add: number_of_10 rotation_step_x_value power_int_minus)

lemma ten_steps_x:
  "((\<lambda>a. js_add a rotation_step_x) ^^ 10) (Finite 0) = Finite (1441151880758559 / 72057594037927936)"
proof -
  have s1: "js_add (Finite (0)) rotation_step_x = Finite (1152921504606847 / 576460752303423488)"
    using round_double_certificate [of "1 / 2 ^ 61" "- 61" "0 + 1152921504606847 / 576460752303423488" 4611686018427388]
    by (simp add: rotation_step_x_value power_int_minus)
  have s2: "js_add (Finite (1152921504606847 / 576460752303423488)) rotation_step_x = Finite (1152921504606847 / 288230376151711744)"
    using round_double_certificate [of "1 / 2 ^ 60" "- 60" "1152921504606847 / 576460752303423488 + 1152921504606847 / 576460752303423488" 4611686018427388]
    by (simp add: rotation_step_x_value power_int_minus)
  have s3: "js_add (Finite (1152921504606847 / 288230376151711744)) rotation_step_x = Finite (3458764513820541 / 576460752303423488)"
    using round_double_certificate [of "1 / 2 ^ 60" "- 60" "1152921504606847 / 288230376151711744 + 1152921504606847 / 576460752303423488" 6917529027641082]
    by (simp add: rotation_step_x_value power_int_minus)
  have s4: "js_add (Finite (3458764513820541 / 576460752303423488)) rotation_step_x = Finite (1152921504606847 / 144115188075855872)"
    using round_double_certificate [of "1 / 2 ^ 59" "- 59" "3458764513820541 / 576460752303423488 + 1152921504606847 / 576460752303423488" 4611686018427388]
    by (simp add: rotation_step_x_value power_int_minus)
  have s5: "js_add (Finite (1152921504606847 / 144115188075855872)) rotation_step_x = Finite (5764607523034235 / 576460752303423488)"
    using round_double_certificate [of "1 / 2 ^ 59" "- 59" "1152921504606847 / 144115188075855872 + 1152921504606847 / 576460752303423488" 5764607523034235]
    by (simp add: rotation_step_x_value power_int_minus)
  have s6: "js_add (Finite (5764607523034235 / 576460752303423488)) rotation_step_x = Finite (3458764513820541 / 288230376151711744)"
    using round_double_certificate [of "1 / 2 ^ 59" "- 59" "5764607523034235 / 576460752303423488 + 1152921504606847 / 576460752303423488" 6917529027641082]
    by (simp add: rotation_step_x_value power_int_minus)
  have s7: "js_add (Finite (3458764513820541 / 288230376151711744)) rotation_step_x = Finite (8070450532247929 / 576460752303423488)"
    using round_double_certificate [of "1 / 2 ^ 59" "- 59" "3458764513820541 / 288230376151711744 + 1152921504606847 / 576460752303423488" 8070450532247929]
    by (simp add: rotation_step_x_value power_int_minus)
  have s8: "js_add (Finite (8070450532247929 / 576460752303423488)) rotation_step_x = Finite (1152921504606847 / 72057594037927936)"
    using round_double_certificate [of "1 / 2 ^ 58" "- 58" "8070450532247929 / 576460752303423488 + 1152921504606847 / 576460752303423488" 4611686018427388]
    by (simp add: rotation_step_x_value power_int_minus)
  have s9: "js_add (Finite (1152921504606847 / 72057594037927936)) rotation_step_x = Finite (1297036692682703 / 72057594037927936)"
    using round_double_certificate [of "1 / 2 ^ 58" "- 58" "1152921504606847 / 72057594037927936 + 1152921504606847 / 576460752303423488" 5188146770730812]
    by (simp add: rotation_step_x_value power_int_minus)
  have s10: "js_add (Finite (1297036692682703 / 72057594037927936)) rotation_step_x = Finite (1441151880758559 / 72057594037927936)"
    using round_double_certificate [of "1 / 2 ^ 58" "- 58" "1297036692682703 / 72057594037927936 + 1152921504606847 / 576460752303423488" 5764607523034236]
    by (simp add: rotation_step_x_value power_int_minus)
  show ?thesis
    by (simp add: eval_nat_numeral s1 s2 s3 s4 s5 s6 s7 s8 s9 s10)
qed

lemma first_step_y:
  "js_add (Finite 0) rotation_step_y = Finite (3458764513820541 / 1152921504606846976)"
  using round_double_certificate
          [of "1 / 2 ^ 61" "- 61" "0 + 3458764513820541 / 1152921504606846976" 6917529027641082]
  by (simp add: rotation_step_y_value power_int_minus)

lemma first_step_x:
  "js_add (Finite 0) rotation_step_x = Finite (1152921504606847 / 576460752303423488)"
  using round_double_certificate
          [of "1 / 2 ^ 61" "- 61" "0 + 1152921504606847 / 576460752303423488" 4611686018427388]
  by (simp add: rotation_step_x_value power_int_minus)

section \<open>Properties of the decorative scene\<close>

lemma animate_scene:
  "fst (animate sc pg) =
     sc\<lparr>rotation_x := js_add (rotation_x sc) rotation_step_x,
        rotation_y := js_add (rotation_y sc) rotation_step_y\<rparr>"
  by (simp add: animate_def requestAnimationFrame_def Let_def)

lemma animate_page:
  "snd (animate sc pg) =
     pg\<lparr>last_handle := Suc (last_handle pg),
        frame_callbacks := frame_callbacks pg @ [Suc (last_handle pg)],
        animationFrameId := Some (Suc (last_handle pg)),
        effects := effects pg @
          [RequestFrame (Suc (last_handle pg)),
           SetRotationX (js_add (rotation_x sc) rotation_step_x),
           SetRotationY (js_add (rotation_y sc) rotation_step_y),
           Render \<lparr>drawn_rotation_x = js_add (rotation_x sc) rotation_step_x,
                   drawn_rotation_y = js_add (rotation_y sc) rotation_step_y,
                   drawn_width = renderer_width sc, drawn_height = renderer_height sc,
                   drawn_aspect = projection_aspect sc\<rparr>]\<rparr>"
  by (simp add: animate_def requestAnimationFrame_def log_effect_def render_def Let_def)

lemma refresh_single:
  "frame_callbacks pg = [h] \<Longrightarrow> refresh sc pg = animate sc (pg\<lparr>frame_callbacks := []\<rparr>)"
  by (simp add: refresh_def)

lemma mount_inv: "scene_inv header canvas (mount header canvas (new_page w h dpr kids))"
  by (simp add: scene_inv_def mount_def new_scene_def Let_def animate_scene animate_page
      appendChild_def log_effect_def new_page_def)

lemma refresh_inv:
  assumes "scene_inv header canvas (sc, pg)"
  shows "scene_inv header canvas (refresh sc pg)"
proof -
  from assms have "frame_callbacks pg = [last_handle pg]"
    by (simp add: scene_inv_def)
  then have "refresh sc pg = animate sc (pg\<lparr>frame_callbacks := []\<rparr>)"
    by (rule refresh_single)
  with assms show ?thesis
    by (simp add: scene_inv_def animate_scene animate_page)
qed

lemma resize_inv:
  assumes "scene_inv header canvas (sc, pg)"
  shows "scene_inv header canvas (scene_step (Resize w h) (sc, pg))"
  using assms
  by (simp add: scene_inv_def onWindowResize_def updateProjectionMatrix_def setSize_def Let_def)

lemma scene_step_inv:
  "scene_inv header canvas w \<Longrightarrow> scene_inv header canvas (scene_step ev w)"
proof (cases w)
  case (Pair sc pg)
  assume "scene_inv header canvas w"
  with Pair have inv: "scene_inv header canvas (sc, pg)" by simp
  show ?thesis
  proof (cases ev)
    case Refresh
    with Pair refresh_inv [OF inv] show ?thesis by simp
  next
    case (Resize w' h')
    with Pair resize_inv [OF inv, of w' h'] show ?thesis by simp
  qed
qed

lemma fold_scene_step_inv:
  "scene_inv header canvas w \<Longrightarrow> scene_inv header canvas (fold scene_step evs w)"
  by (induction evs arbitrary: w) (simp_all add: scene_step_inv)

lemma scene_run_inv:
  "scene_inv header canvas (scene_run header canvas (new_page w h dpr kids) evs)"
  by (simp add: scene_run_def fold_scene_step_inv mount_inv)

lemma resize_listening_step:
  assumes "resize_listening pg"
  shows "fst (scene_step (Resize w h) (sc, pg)) =
           sc\<lparr>camera_aspect :=
                  js_div (number_of_nat w) (js_mul (number_of_nat h) header_fraction),
              projection_aspect :=
                  js_div (number_of_nat w) (js_mul (number_of_nat h) header_fraction),
              renderer_width := number_of_nat w,
              renderer_height := js_mul (number_of_nat h) header_fraction\<rparr>"
    and "snd (scene_step (Resize w h) (sc, pg)) = pg\<lparr>innerWidth := w, innerHeight := h\<rparr>"
  using assms
  by (simp_all add: onWindowResize_def updateProjectionMatrix_def setSize_def Let_def)

lemma run_listening:
  "resize_listening (snd (scene_run header canvas (new_page w h dpr kids) evs))"
  using scene_run_inv [of header canvas w h dpr kids evs]
  by (simp add: scene_inv_def Let_def)

lemma run_callbacks:
  "frame_callbacks (snd (scene_run header canvas (new_page w h dpr kids) evs)) =
     [last_handle (snd (scene_run header canvas (new_page w h dpr kids) evs))]"
  using scene_run_inv [of header canvas w h dpr kids evs]
  by (simp add: scene_inv_def Let_def)

text \<open>
  C2. The products and quotients are those of the platform's numbers (so \<open>768 \<times> 0.4\<close>
  is the number 307.20000000000005). At set-up in a
  viewport of width \<open>w\<close> and height \<open>h\<close> the render surface has the size
  \<open>(w, h \<times> 0.4)\<close> and the camera the aspect \<open>w / (h \<times> 0.4)\<close>. After any events, a resize
  to \<open>(w', h')\<close> leaves, when its handler returns, the surface at \<open>(w', h' \<times> 0.4)\<close> and
  the camera and its projection at \<open>w' / (h' \<times> 0.4)\<close>; the frame drawn at the next
  display refresh has these dimensions.
\<close>

theorem surface_follows_viewport:
  "setup_scene (Some header) canvas (new_page w h dpr kids)
     = Some (mount header canvas (new_page w h dpr kids))
   \<and> renderer_width (fst (mount header canvas (new_page w h dpr kids))) = number_of_nat w
   \<and> renderer_height (fst (mount header canvas (new_page w h dpr kids)))
       = js_mul (number_of_nat h) header_fraction
   \<and> camera_aspect (fst (mount header canvas (new_page w h dpr kids)))
       = js_div (number_of_nat w) (js_mul (number_of_nat h) header_fraction)
   \<and> renderer_width (fst (scene_step (Resize w' h')
         (scene_run header canvas (new_page w h dpr kids) evs))) = number_of_nat w'
   \<and> renderer_height (fst (scene_step (Resize w' h')
         (scene_run header canvas (new_page w h dpr kids) evs)))
       = js_mul (number_of_nat h') header_fraction
   \<and> camera_aspect (fst (scene_step (Resize w' h')
         (scene_run header canvas (new_page w h dpr kids) evs)))
       = js_div (number_of_nat w') (js_mul (number_of_nat h') header_fraction)
   \<and> projection_aspect (fst (scene_step (Resize w' h')
         (scene_run header canvas (new_page w h dpr kids) evs)))
       = js_div (number_of_nat w') (js_mul (number_of_nat h') header_fraction)
   \<and> (\<exists>f. last (effects (snd (scene_step Refresh (scene_step (Resize w' h')
                (scene_run header canvas (new_page w h dpr kids) evs))))) = Render f
          \<and> drawn_width f = number_of_nat w'
          \<and> drawn_height f = js_mul (number_of_nat h') header_fraction
          \<and> drawn_aspect f
              = js_div (number_of_nat w') (js_mul (number_of_nat h') header_fraction))"
proof -
  let ?m = "mount header canvas (new_page w h dpr kids)"
  let ?r = "scene_run header canvas (new_page w h dpr kids) evs"
  let ?z = "scene_step (Resize w' h') ?r"
  have m: "scene_inv header canvas ?m"
    by (rule mount_inv)
  have m_width: "innerWidth (snd ?m) = w" and m_height: "innerHeight (snd ?m) = h"
    by (simp_all add: mount_def new_scene_def Let_def animate_page appendChild_def
        log_effect_def new_page_def)
  have z_fst: "fst ?z = (fst ?r)\<lparr>camera_aspect :=
                  js_div (number_of_nat w') (js_mul (number_of_nat h') header_fraction),
              projection_aspect :=
                  js_div (number_of_nat w') (js_mul (number_of_nat h') header_fraction),
              renderer_width := number_of_nat w',
              renderer_height := js_mul (number_of_nat h') header_fraction\<rparr>"
    and z_snd: "snd ?z = (snd ?r)\<lparr>innerWidth := w', innerHeight := h'\<rparr>"
    using resize_listening_step [where sc = "fst ?r" and pg = "snd ?r" and w = w' and h = h']
      run_listening [of header canvas w h dpr kids evs]
    by simp_all
  have "frame_callbacks (snd ?z) = [last_handle (snd ?r)]"
    using run_callbacks [of header canvas w h dpr kids evs] by (simp add: z_snd)
  then have "refresh (fst ?z) (snd ?z) = animate (fst ?z) ((snd ?z)\<lparr>frame_callbacks := []\<rparr>)"
    by (rule refresh_single)
  then have "scene_step Refresh ?z = animate (fst ?z) ((snd ?z)\<lparr>frame_callbacks := []\<rparr>)"
    by (cases ?z) simp
  then have drawn: "\<exists>f. last (effects (snd (scene_step Refresh ?z))) = Render f
          \<and> drawn_width f = number_of_nat w'
          \<and> drawn_height f = js_mul (number_of_nat h') header_fraction
          \<and> drawn_aspect f
              = js_div (number_of_nat w') (js_mul (number_of_nat h') header_fraction)"
    by (simp add: animate_page z_fst)
  have "setup_scene (Some header) canvas (new_page w h dpr kids) = Some ?m"
    by (simp add: setup_scene_def)
  moreover have "renderer_width (fst ?m) = number_of_nat w"
    "renderer_height (fst ?m) = js_mul (number_of_nat h) header_fraction"
    "camera_aspect (fst ?m) = js_div (number_of_nat w) (js_mul (number_of_nat h) header_fraction)"
    using m by (simp_all add: scene_inv_def Let_def m_width m_height)
  moreover have "renderer_width (fst ?z) = number_of_nat w'"
    "renderer_height (fst ?z) = js_mul (number_of_nat h') header_fraction"
    "camera_aspect (fst ?z) = js_div (number_of_nat w') (js_mul (number_of_nat h') header_fraction)"
    "projection_aspect (fst ?z) = js_div (number_of_nat w') (js_mul (number_of_nat h') header_fraction)"
    by (simp_all add: z_fst)
  ultimately show ?thesis
    using drawn by (intro conjI)
qed

theorem surface_follows_viewport_witness:
  "renderer_width (fst (mount 1 2 load_page)) = Finite 1920
   \<and> renderer_height (fst (mount 1 2 load_page)) = Finite 432
   \<and> camera_aspect (fst (mount 1 2 load_page)) = Finite (2501999792983609 / 562949953421312)
   \<and> renderer_width (fst (scene_step (Resize 1366 768) (scene_run 1 2 load_page [Refresh])))
       = Finite 1366
   \<and> renderer_height (fst (scene_step (Resize 1366 768) (scene_run 1 2 load_page [Refresh])))
       = Finite (1351079888211149 / 4398046511104)
   \<and> camera_aspect (fst (scene_step (Resize 1366 768) (scene_run 1 2 load_page [Refresh])))
       = Finite (5006442945140053 / 1125899906842624)
   \<and> projection_aspect (fst (scene_step (Resize 1366 768) (scene_run 1 2 load_page [Refresh])))
       = Finite (5006442945140053 / 1125899906842624)"
  unfolding load_page_def
  using surface_follows_viewport [of 1 2 1920 1080 "Finite 1" no_children 1366 768 "[Refresh]"]
  by (simp only: number_of_1920 number_of_1366 height_1080 height_768 aspect_1920_1080
      aspect_1366_768 simp_thms)

lemma cleanup_mounted:
  assumes "scene_inv header canvas (sc, pg)"
  shows "\<exists>sc' pg'. cleanup sc pg = Inr (sc', pg')
           \<and> frame_callbacks pg' = []
           \<and> canvas \<notin> set (child_nodes pg' header)
           \<and> \<not> resize_listening pg'
           \<and> renderer_disposed sc' \<and> geometry_disposed sc' \<and> material_disposed sc'
           \<and> effects pg' = effects pg @
                [RemoveResizeListener, CancelFrame (last_handle pg), RemoveChild header canvas,
                 DisposeRenderer, DisposeGeometry, DisposeMaterial]"
  using assms
  by (simp add: scene_inv_def cleanup_def cancelAnimationFrame_def removeChild_def
      log_effect_def Let_def)

lemma cleanup_unattached:
  assumes "currentHeaderRef sc = None \<or> domElement sc = None"
  shows "\<exists>sc' pg' before. cleanup sc pg = Inr (sc', pg')
           \<and> renderer_disposed sc' \<and> geometry_disposed sc' \<and> material_disposed sc'
           \<and> child_nodes pg' = child_nodes pg
           \<and> effects pg' = before @ [DisposeRenderer, DisposeGeometry, DisposeMaterial]"
  using assms
  by (auto simp add: cleanup_def cancelAnimationFrame_def log_effect_def Let_def
      split: option.splits)

text \<open>
  The guard of the removal tests that the header and the canvas exist, not that the
  canvas is a child of the header: were the canvas taken out of the header by other code,
  \<open>removeChild\<close> would throw and the disposals would not run. By \<open>cleanup_mounted\<close> no
  state of a mounted scene is of this kind.
\<close>

lemma cleanup_not_a_child:
  assumes "currentHeaderRef sc = Some header" and "domElement sc = Some canvas"
    and "canvas \<notin> set (child_nodes pg header)"
  shows "cleanup sc pg = Inl NotFoundError"
  using assms
  by (simp add: cleanup_def cancelAnimationFrame_def removeChild_def log_effect_def Let_def
      split: option.splits)

text \<open>
  C4. When the scene has been mounted at page load and has gone through any refreshes and
  resizes, the clean-up does not fail and leaves no frame callback scheduled, the canvas
  out of the header's children, the resize listener removed, and the renderer, the
  geometry and the material disposed, in this order. And whenever the clean-up passes over
  the removal of the canvas, because it holds no header or no canvas, it still does not
  fail and disposes the three of them, at the end and in this order.
\<close>

theorem unmount_releases_scene:
  "(\<exists>sc' pg'. cleanup (fst (scene_run header canvas (new_page w h dpr kids) evs))
                (snd (scene_run header canvas (new_page w h dpr kids) evs)) = Inr (sc', pg')
        \<and> frame_callbacks pg' = []
        \<and> canvas \<notin> set (child_nodes pg' header)
        \<and> \<not> resize_listening pg'
        \<and> renderer_disposed sc' \<and> geometry_disposed sc' \<and> material_disposed sc'
        \<and> effects pg' = effects (snd (scene_run header canvas (new_page w h dpr kids) evs)) @
             [RemoveResizeListener,
              CancelFrame (last_handle (snd (scene_run header canvas (new_page w h dpr kids) evs))),
              RemoveChild header canvas, DisposeRenderer, DisposeGeometry, DisposeMaterial])
   \<and> (currentHeaderRef sc = None \<or> domElement sc = None \<longrightarrow>
        (\<exists>sc' pg' before. cleanup sc pg = Inr (sc', pg')
           \<and> renderer_disposed sc' \<and> geometry_disposed sc' \<and> material_disposed sc'
           \<and> child_nodes pg' = child_nodes pg
           \<and> effects pg' = before @ [DisposeRenderer, DisposeGeometry, DisposeMaterial]))"
proof
  let ?r = "scene_run header canvas (new_page w h dpr kids) evs"
  have "scene_inv header canvas (fst ?r, snd ?r)"
    using scene_run_inv [of header canvas w h dpr kids evs] by simp
  then show "\<exists>sc' pg'. cleanup (fst ?r) (snd ?r) = Inr (sc', pg')
        \<and> frame_callbacks pg' = []
        \<and> canvas \<notin> set (child_nodes pg' header)
        \<and> \<not> resize_listening pg'
        \<and> renderer_disposed sc' \<and> geometry_disposed sc' \<and> material_disposed sc'
        \<and> effects pg' = effects (snd ?r) @
             [RemoveResizeListener, CancelFrame (last_handle (snd ?r)),
              RemoveChild header canvas, DisposeRenderer, DisposeGeometry, DisposeMaterial]"
    by (rule cleanup_mounted)
next
  show "currentHeaderRef sc = None \<or> domElement sc = None \<longrightarrow>
        (\<exists>sc' pg' before. cleanup sc pg = Inr (sc', pg')
           \<and> renderer_disposed sc' \<and> geometry_disposed sc' \<and> material_disposed sc'
           \<and> child_nodes pg' = child_nodes pg
           \<and> effects pg' = before @ [DisposeRenderer, DisposeGeometry, DisposeMaterial])"
    using cleanup_unattached by blast
qed

theorem unmount_releases_scene_witness:
  "(\<exists>sc' pg'. cleanup (fst (scene_run 1 2 load_page [Refresh, Resize 1366 768, Refresh]))
                (snd (scene_run 1 2 load_page [Refresh, Resize 1366 768, Refresh]))
              = Inr (sc', pg')
        \<and> frame_callbacks pg' = []
        \<and> 2 \<notin> set (child_nodes pg' 1)
        \<and> renderer_disposed sc' \<and> geometry_disposed sc' \<and> material_disposed sc')
   \<and> currentHeaderRef ((new_scene 1 2 load_page)\<lparr>currentHeaderRef := None\<rparr>) = None
   \<and> (\<exists>sc' pg' before.
         cleanup ((new_scene 1 2 load_page)\<lparr>currentHeaderRef := None\<rparr>) load_page
           = Inr (sc', pg')
         \<and> renderer_disposed sc' \<and> geometry_disposed sc' \<and> material_disposed sc'
         \<and> child_nodes pg' = child_nodes load_page
         \<and> effects pg' = before @ [DisposeRenderer, DisposeGeometry, DisposeMaterial])"
proof -
  have h: "currentHeaderRef ((new_scene 1 2 load_page)\<lparr>currentHeaderRef := None\<rparr>) = None"
    by simp
  from unmount_releases_scene
         [of 1 2 1920 1080 "Finite 1" no_children "[Refresh, Resize 1366 768, Refresh]"
             "(new_scene 1 2 load_page)\<lparr>currentHeaderRef := None\<rparr>" load_page,
          folded load_page_def]
       h
  show ?thesis by blast
qed

text \<open>
  C8. Every call of \<open>animate\<close> makes its writes in this order: the request of the next
  frame, the new angle about the first axis, the new angle about the second axis, and
  then the redraw, which draws the two angles just written. A display refresh of a
  mounted scene is one such call.
\<close>

theorem rotation_before_redraw:
  "effects (snd (animate sc pg)) = effects pg @
     [RequestFrame (Suc (last_handle pg)),
      SetRotationX (rotation_x (fst (animate sc pg))),
      SetRotationY (rotation_y (fst (animate sc pg))),
      Render \<lparr>drawn_rotation_x = rotation_x (fst (animate sc pg)),
              drawn_rotation_y = rotation_y (fst (animate sc pg)),
              drawn_width = renderer_width sc, drawn_height = renderer_height sc,
              drawn_aspect = projection_aspect sc\<rparr>]
   \<and> rotation_x (fst (animate sc pg)) = js_add (rotation_x sc) rotation_step_x
   \<and> rotation_y (fst (animate sc pg)) = js_add (rotation_y sc) rotation_step_y
   \<and> scene_step Refresh (scene_run header canvas (new_page w h dpr kids) evs)
       = animate (fst (scene_run header canvas (new_page w h dpr kids) evs))
           ((snd (scene_run header canvas (new_page w h dpr kids) evs))\<lparr>frame_callbacks := []\<rparr>)"
proof -
  let ?r = "scene_run header canvas (new_page w h dpr kids) evs"
  have "refresh (fst ?r) (snd ?r) = animate (fst ?r) ((snd ?r)\<lparr>frame_callbacks := []\<rparr>)"
    using run_callbacks by (rule refresh_single)
  then have "scene_step Refresh ?r = animate (fst ?r) ((snd ?r)\<lparr>frame_callbacks := []\<rparr>)"
    by (cases ?r) simp
  then show ?thesis
    by (simp add: animate_scene animate_page)
qed

theorem rotation_before_redraw_witness:
  "effects (snd (animate (new_scene 1 2 load_page) load_page)) =
     [RequestFrame 1,
      SetRotationX (Finite (1152921504606847 / 576460752303423488)),
      SetRotationY (Finite (3458764513820541 / 1152921504606846976)),
      Render \<lparr>drawn_rotation_x = Finite (1152921504606847 / 576460752303423488),
              drawn_rotation_y = Finite (3458764513820541 / 1152921504606846976),
              drawn_width = Finite 1920, drawn_height = Finite 432,
              drawn_aspect = Finite (2501999792983609 / 562949953421312)\<rparr>]"
proof -
  have "effects load_page = []" "last_handle load_page = 0"
    by (simp_all add: load_page_def new_page_def)
  moreover have "rotation_x (new_scene 1 2 load_page) = Finite 0"
    "rotation_y (new_scene 1 2 load_page) = Finite 0"
    "renderer_width (new_scene 1 2 load_page) = Finite 1920"
    "renderer_height (new_scene 1 2 load_page) = Finite 432"
    "projection_aspect (new_scene 1 2 load_page) = Finite (2501999792983609 / 562949953421312)"
    by (simp_all add: new_scene_def Let_def load_page_def new_page_def number_of_1920
        height_1080 aspect_1920_1080 del: js_add.simps js_mul.simps js_div.simps)
  ultimately show ?thesis
    using rotation_before_redraw
            [of "new_scene 1 2 load_page" load_page 1 2 1920 1080 "Finite 1" no_children "[]"]
    by (simp add: first_step_x first_step_y del: js_add.simps js_mul.simps js_div.simps)
qed

lemma js_add_funpow_swap:
  "((\<lambda>a. js_add a r) ^^ n) (js_add x r) = js_add (((\<lambda>a. js_add a r) ^^ n) x) r"
  using funpow_swap1 [of "\<lambda>a. js_add a r" n x] by simp

lemma new_scene_angles:
  "rotation_x (new_scene header canvas pg) = Finite 0"
  "rotation_y (new_scene header canvas pg) = Finite 0"
  by (simp_all add: new_scene_def Let_def)

lemma ticks_rotation:
  "rotation_x (fst (ticks n w)) = ((\<lambda>a. js_add a rotation_step_x) ^^ n) (rotation_x (fst w))"
  "rotation_y (fst (ticks n w)) = ((\<lambda>a. js_add a rotation_step_y) ^^ n) (rotation_y (fst w))"
  by (induction n arbitrary: w) (simp_all add: animate_scene js_add_funpow_swap)

text \<open>
  The first tick is the call of \<open>animate\<close> at the end of the effect, each display
  refresh is one more: a scene mounted at page load that has seen \<open>k\<close> display refreshes
  has made \<open>k + 1\<close> ticks from zero.
\<close>

lemma refreshes_rotation:
  assumes "scene_inv header canvas w"
  shows "rotation_x (fst (fold scene_step (replicate k Refresh) w))
           = ((\<lambda>a. js_add a rotation_step_x) ^^ k) (rotation_x (fst w))"
    and "rotation_y (fst (fold scene_step (replicate k Refresh) w))
           = ((\<lambda>a. js_add a rotation_step_y) ^^ k) (rotation_y (fst w))"
  using assms
proof (induction k arbitrary: w)
  case 0
  {
    case 1 show ?case by simp
  next
    case 2 show ?case by simp
  }
next
  case (Suc k)
  have step: "scene_step Refresh w = animate (fst w) ((snd w)\<lparr>frame_callbacks := []\<rparr>)"
    if "scene_inv header canvas w" for w
  proof -
    from that have "frame_callbacks (snd w) = [last_handle (snd w)]"
      by (simp add: scene_inv_def Let_def)
    then have "refresh (fst w) (snd w) = animate (fst w) ((snd w)\<lparr>frame_callbacks := []\<rparr>)"
      by (rule refresh_single)
    then show ?thesis by (cases w) simp
  qed
  {
    case 1
    then have inv: "scene_inv header canvas (scene_step Refresh w)"
      by (rule scene_step_inv)
    from Suc.IH(1) [OF inv] step [OF 1] show ?case
      by (simp add: animate_scene js_add_funpow_swap)
  next
    case 2
    then have inv: "scene_inv header canvas (scene_step Refresh w)"
      by (rule scene_step_inv)
    from Suc.IH(2) [OF inv] step [OF 2] show ?case
      by (simp add: animate_scene js_add_funpow_swap)
  }
qed

lemma mounted_rotation:
  "rotation_x (fst (scene_run header canvas (new_page w h dpr kids) (replicate k Refresh)))
     = ((\<lambda>a. js_add a rotation_step_x) ^^ Suc k) (Finite 0)"
  "rotation_y (fst (scene_run header canvas (new_page w h dpr kids) (replicate k Refresh)))
     = ((\<lambda>a. js_add a rotation_step_y) ^^ Suc k) (Finite 0)"
  using refreshes_rotation [OF mount_inv [of header canvas w h dpr kids], of k]
  by (simp_all add: scene_run_def mount_def Let_def animate_scene new_scene_angles
      js_add_funpow_swap)

text \<open>
  C3, as the spec states it, makes the first angle after ten frame ticks ten times the
  increment. From both angles at zero, ten calls of \<open>animate\<close> leave the first angle at
  0.020000000000000004, which is neither the number \<open>10 * 0.002\<close>, which is 0.02, nor
  ten times the value of the increment, nor ten times two thousandths.
\<close>

theorem rotation_after_ten_ticks_counterexample:
  "rotation_x (new_scene 1 2 load_page) = Finite 0
   \<and> rotation_x (fst (ticks 10 (new_scene 1 2 load_page, load_page)))
       = Finite (1441151880758559 / 72057594037927936)
   \<and> js_mul (number_of_nat 10) rotation_step_x = Finite (5764607523034235 / 288230376151711744)
   \<and> rotation_x (fst (ticks 10 (new_scene 1 2 load_page, load_page)))
       \<noteq> js_mul (number_of_nat 10) rotation_step_x
   \<and> rotation_x (fst (ticks 10 (new_scene 1 2 load_page, load_page)))
       \<noteq> Finite (10 * (1152921504606847 / 576460752303423488))
   \<and> rotation_x (fst (ticks 10 (new_scene 1 2 load_page, load_page)))
       \<noteq> Finite (10 * (2 / 1000))"
proof -
  have zero: "rotation_x (new_scene 1 2 load_page) = Finite 0"
    by (rule new_scene_angles)
  have "rotation_x (fst (ticks 10 (new_scene 1 2 load_page, load_page)))
        = ((\<lambda>a. js_add a rotation_step_x) ^^ 10) (Finite 0)"
    using ticks_rotation(1) [of 10 "(new_scene 1 2 load_page, load_page)"] zero by simp
  then have ten: "rotation_x (fst (ticks 10 (new_scene 1 2 load_page, load_page)))
        = Finite (1441151880758559 / 72057594037927936)"
    by (simp only: ten_steps_x)
  show ?thesis
    unfolding ten ten_times_step_x using zero by simp
qed

text \<open>
  C3, amended. From both angles at zero, after \<open>n\<close> frame ticks the two angles are the
  numbers obtained by adding the increment of their axis \<open>n\<close> times to zero in the
  arithmetic of the platform's numbers; the increments are the numbers 0.002 and 0.003,
  the second above the first. For \<open>n\<close> up to \<open>2^53\<close> each angle is finite and differs
  from \<open>n\<close> times its increment by at most \<open>n\<^sup>2 / 2^53\<close> times that increment.
\<close>

theorem rotation_after_ticks:
  assumes "rotation_x sc = Finite 0" and "rotation_y sc = Finite 0"
  shows "rotation_x (fst (ticks n (sc, pg))) = ((\<lambda>a. js_add a rotation_step_x) ^^ n) (Finite 0)
       \<and> rotation_y (fst (ticks n (sc, pg))) = ((\<lambda>a. js_add a rotation_step_y) ^^ n) (Finite 0)
       \<and> js_less rotation_step_x rotation_step_y
       \<and> (n \<le> 2 ^ 53 \<longrightarrow>
            (\<exists>rx ry ax ay.
               rotation_step_x = Finite rx \<and> rotation_step_y = Finite ry
             \<and> rotation_x (fst (ticks n (sc, pg))) = Finite ax
             \<and> rotation_y (fst (ticks n (sc, pg))) = Finite ay
             \<and> \<bar>ax - of_nat n * rx\<bar> \<le> of_nat n * of_nat n * rx / 2 ^ 53
             \<and> \<bar>ay - of_nat n * ry\<bar> \<le> of_nat n * of_nat n * ry / 2 ^ 53))"
proof -
  let ?rx = "1152921504606847 / 576460752303423488 :: rat"
  let ?ry = "3458764513820541 / 1152921504606846976 :: rat"
  have x: "rotation_x (fst (ticks n (sc, pg))) = ((\<lambda>a. js_add a rotation_step_x) ^^ n) (Finite 0)"
    and y: "rotation_y (fst (ticks n (sc, pg))) = ((\<lambda>a. js_add a rotation_step_y) ^^ n) (Finite 0)"
    using ticks_rotation [of n "(sc, pg)"] assms by simp_all
  have less: "js_less rotation_step_x rotation_step_y"
    by (simp add: rotation_step_x_value rotation_step_y_value)
  have bound: "\<exists>rx ry ax ay.
               rotation_step_x = Finite rx \<and> rotation_step_y = Finite ry
             \<and> rotation_x (fst (ticks n (sc, pg))) = Finite ax
             \<and> rotation_y (fst (ticks n (sc, pg))) = Finite ay
             \<and> \<bar>ax - of_nat n * rx\<bar> \<le> of_nat n * of_nat n * rx / 2 ^ 53
             \<and> \<bar>ay - of_nat n * ry\<bar> \<le> of_nat n * of_nat n * ry / 2 ^ 53"
    if n: "n \<le> 2 ^ 53"
  proof -
    have bx: "2 powi (- 1022) \<le> ?rx" "?rx \<le> 1" and by': "2 powi (- 1022) \<le> ?ry" "?ry \<le> 1"
      by (simp_all add: power_int_minus)
    from accumulate_bound [OF bx n] obtain ax where
      ax: "((\<lambda>a. js_add a (Finite ?rx)) ^^ n) (Finite 0) = Finite ax"
        "\<bar>ax - of_nat n * ?rx\<bar> \<le> of_nat n * of_nat n * ?rx / 2 ^ 53"
      by blast
    from accumulate_bound [OF by' n] obtain ay where
      ay: "((\<lambda>a. js_add a (Finite ?ry)) ^^ n) (Finite 0) = Finite ay"
        "\<bar>ay - of_nat n * ?ry\<bar> \<le> of_nat n * of_nat n * ?ry / 2 ^ 53"
      by blast
    show ?thesis
      using ax ay unfolding x y rotation_step_x_value rotation_step_y_value by blast
  qed
  with x y less show ?thesis by blast
qed

theorem rotation_after_ticks_witness:
  "rotation_x (new_scene 1 2 load_page) = Finite 0
   \<and> rotation_y (new_scene 1 2 load_page) = Finite 0
   \<and> (10::nat) \<le> 2 ^ 53
   \<and> rotation_x (fst (ticks 10 (new_scene 1 2 load_page, load_page)))
       = ((\<lambda>a. js_add a rotation_step_x) ^^ 10) (Finite 0)
   \<and> js_less rotation_step_x rotation_step_y
   \<and> (\<exists>rx ax. rotation_step_x = Finite rx
         \<and> rotation_x (fst (ticks 10 (new_scene 1 2 load_page, load_page))) = Finite ax
         \<and> \<bar>ax - 10 * rx\<bar> \<le> 10 * 10 * rx / 2 ^ 53)"
proof -
  have h: "rotation_x (new_scene 1 2 load_page) = Finite 0"
    "rotation_y (new_scene 1 2 load_page) = Finite 0"
    by (simp_all add: new_scene_angles)
  have n: "(10::nat) \<le> 2 ^ 53"
    by simp
  note t = rotation_after_ticks [OF h, of 10 load_page]
  from t have sum: "rotation_x (fst (ticks 10 (new_scene 1 2 load_page, load_page)))
       = ((\<lambda>a. js_add a rotation_step_x) ^^ 10) (Finite 0)"
    by blast
  from t have less: "js_less rotation_step_x rotation_step_y"
    by blast
  from t n obtain rx ax where "rotation_step_x = Finite rx"
    "rotation_x (fst (ticks 10 (new_scene 1 2 load_page, load_page))) = Finite ax"
    "\<bar>ax - of_nat 10 * rx\<bar> \<le> of_nat 10 * of_nat 10 * rx / 2 ^ 53"
    by blast
  then have "\<exists>rx ax. rotation_step_x = Finite rx
         \<and> rotation_x (fst (ticks 10 (new_scene 1 2 load_page, load_page))) = Finite ax
         \<and> \<bar>ax - 10 * rx\<bar> \<le> 10 * 10 * rx / 2 ^ 53"
    by auto
  with h n sum less show ?thesis
    by blast
qed

end
